theory Spec2Isabelle
  imports Complex_Main "HOL-Library.Sublist"
begin

section \<open>Python values and exceptions\<close>

text \<open>
  The program is dynamically typed: every argument of \<open>find_fitting_objects\<close> can be any
  Python value, and the validator tells them apart with \<open>isinstance\<close>. The values that
  reach the code are numbers (\<open>int\<close> and \<open>float\<close>; \<open>bool\<close> is a subclass of \<open>int\<close>,
  so \<open>True\<close> is the number 1), strings, lists, dictionaries with string keys, and anything
  else, for which \<open>PNone\<close> stands.

  Numbers are rationals and the arithmetic is exact: every \<open>int\<close> and every finite \<open>float\<close>
  is a rational. The rounding error of binary floating point, infinities and NaN are outside
  this model. A string is a list of 8-bit characters, read as code points below 256.
  A dictionary is an association list looked up with \<open>map_of\<close>.
\<close>

datatype pyval =
    PNum rat
  | PStr string
  | PNone
  | PList "pyval list"
  | PDict "(string \<times> pyval) list"

text \<open>
  \<open>TypeError\<close> and \<open>ValueError\<close> are the two exceptions the validator raises (the
  specification calls them InvalidType and InvalidValue); \<open>KeyError\<close> is what a subscript
  with a missing key raises.
\<close>

datatype error = TypeError | ValueError | KeyError

definition and_then :: "error + 'a \<Rightarrow> ('a \<Rightarrow> error + 'b) \<Rightarrow> error + 'b" where
  "and_then m f = (case m of Inl e \<Rightarrow> Inl e | Inr v \<Rightarrow> f v)"

text \<open>\<open>obj[k]\<close>: KeyError on a dictionary without the key, TypeError on anything else.\<close>

definition subscript :: "pyval \<Rightarrow> string \<Rightarrow> error + pyval" where
  "subscript obj k =
     (case obj of
        PDict d \<Rightarrow> (case map_of d k of None \<Rightarrow> Inl KeyError | Some v \<Rightarrow> Inr v)
      | _ \<Rightarrow> Inl TypeError)"

text \<open>
  An operand of \<open>*\<close>, \<open>-\<close>, \<open>+\<close>, \<open>>\<close> or \<open>>=\<close> against a number. The comparisons raise
  TypeError on every value that is not a number; so does the arithmetic, sequence
  repetition apart, which the model also takes as TypeError. Lemma
  \<open>validated_runs\<close> shows that \<open>find_fitting_objects\<close> never reaches these branches.
\<close>

definition num_of :: "pyval \<Rightarrow> error + rat" where
  "num_of v = (case v of PNum q \<Rightarrow> Inr q | _ \<Rightarrow> Inl TypeError)"

text \<open>\<open>for obj in v\<close>: the elements of a list; any other value is taken as TypeError.\<close>

definition iterate :: "pyval \<Rightarrow> error + pyval list" where
  "iterate v = (case v of PList xs \<Rightarrow> Inr xs | _ \<Rightarrow> Inl TypeError)"

text \<open>\<open>str.isspace\<close> on the code points below 256, and \<open>str.strip()\<close>.\<close>

definition is_space :: "char \<Rightarrow> bool" where
  "is_space c = ((of_char c :: nat) \<in> {9, 10, 11, 12, 13, 28, 29, 30, 31, 32, 133, 160})"

definition strip :: "string \<Rightarrow> string" where
  "strip s = rev (dropWhile is_space (rev (dropWhile is_space s)))"

section \<open>Validation helpers\<close>

text \<open>
  The source's private functions carry a leading underscore (\<open>_validate_inputs\<close>), which an
  Isabelle name cannot; the models drop it. The \<open>name\<close> parameters of the validators only
  build the exception messages and are left out.
\<close>

definition validate_positive_number :: "pyval \<Rightarrow> error + unit" where
  "validate_positive_number v =
     (case v of
        PNum q \<Rightarrow> if q \<le> 0 then Inl ValueError else Inr ()
      | _ \<Rightarrow> Inl TypeError)"

fun validate_dims :: "pyval \<Rightarrow> string list \<Rightarrow> error + unit" where
  "validate_dims obj [] = Inr ()"
| "validate_dims obj (dim_key # ks) =
     and_then (subscript obj dim_key) (\<lambda>v.
     and_then (validate_positive_number v) (\<lambda>_. validate_dims obj ks))"

definition validate_object_dict :: "pyval \<Rightarrow> string list \<Rightarrow> error + unit" where
  "validate_object_dict obj required_keys =
     (case obj of
        PDict d \<Rightarrow>
          if \<not> list_all (\<lambda>k. map_of d k \<noteq> None) required_keys then Inl ValueError
          else
            and_then
              (if ''name'' \<in> set required_keys
               then and_then (subscript obj ''name'') (\<lambda>n.
                      case n of
                        PStr s \<Rightarrow> if strip s = [] then Inl ValueError else Inr ()
                      | _ \<Rightarrow> Inl ValueError)
               else Inr ())
              (\<lambda>_. validate_dims obj [''width'', ''length''])
      | _ \<Rightarrow> Inl TypeError)"

fun validate_all :: "pyval list \<Rightarrow> string list \<Rightarrow> error + unit" where
  "validate_all [] required_keys = Inr ()"
| "validate_all (item # items) required_keys =
     and_then (validate_object_dict item required_keys) (\<lambda>_. validate_all items required_keys)"

definition validate_inputs :: "pyval \<Rightarrow> pyval \<Rightarrow> pyval \<Rightarrow> pyval \<Rightarrow> pyval \<Rightarrow> error + unit" where
  "validate_inputs plot_width plot_length restricted_border existing_objects new_objects =
     and_then (validate_positive_number plot_width) (\<lambda>_.
     and_then (validate_positive_number plot_length) (\<lambda>_.
     and_then (validate_positive_number restricted_border) (\<lambda>_.
     and_then (num_of restricted_border) (\<lambda>b.
     and_then (num_of plot_width) (\<lambda>w.
     and_then (num_of plot_length) (\<lambda>l.
       if b * 2 \<ge> w \<or> b * 2 \<ge> l then Inl ValueError
       else
         (case existing_objects of
            PList exs \<Rightarrow>
              (case new_objects of
                 PList news \<Rightarrow>
                   and_then (validate_all exs [''width'', ''length'']) (\<lambda>_.
                   validate_all news [''name'', ''width'', ''length''])
               | _ \<Rightarrow> Inl TypeError)
          | _ \<Rightarrow> Inl TypeError)))))))"

section \<open>Area computations\<close>

text \<open>
  Python's \<open>round(x, 2)\<close>: the nearest multiple of 1/100, a tie going to the even
  multiple. (On a float the result is then the float nearest to that decimal; on an
  \<open>int\<close> it is the \<open>int\<close> itself.)
\<close>

definition round_half_even :: "rat \<Rightarrow> int" where
  "round_half_even q =
     (let f = \<lfloor>q\<rfloor>; d = q - of_int f
      in if d < 1 / 2 then f else if 1 / 2 < d then f + 1 else if even f then f else f + 1)"

definition round2 :: "rat \<Rightarrow> rat" where
  "round2 q = of_int (round_half_even (q * 100)) / 100"

text \<open>\<open>obj["width"] * obj["length"]\<close>: both subscripts first, then the product.\<close>

definition obj_area :: "pyval \<Rightarrow> error + rat" where
  "obj_area obj =
     and_then (subscript obj ''width'') (\<lambda>wv.
     and_then (subscript obj ''length'') (\<lambda>lv.
     and_then (num_of wv) (\<lambda>w.
     and_then (num_of lv) (\<lambda>l. Inr (w * l)))))"

text \<open>\<open>sum(...)\<close> over the generator: an accumulator that starts at 0.\<close>

fun sum_areas :: "rat \<Rightarrow> pyval list \<Rightarrow> error + rat" where
  "sum_areas acc [] = Inr acc"
| "sum_areas acc (obj # objs) = and_then (obj_area obj) (\<lambda>a. sum_areas (acc + a) objs)"

definition areas :: "pyval \<Rightarrow> pyval \<Rightarrow> pyval \<Rightarrow> pyval \<Rightarrow> error + rat \<times> rat \<times> rat" where
  "areas plot_width plot_length restricted_border existing_objects =
     and_then (num_of plot_width) (\<lambda>w.
     and_then (num_of plot_length) (\<lambda>l.
     and_then (num_of restricted_border) (\<lambda>b.
       let total_area = w * l;
           usable_w = w - 2 * b;
           usable_l = l - 2 * b;
           usable_area = usable_w * usable_l
       in and_then (iterate existing_objects) (\<lambda>exs.
          and_then (sum_areas 0 exs) (\<lambda>existing_area.
            let free_space = usable_area - existing_area;
                free_space = max 0 free_space;
                free_space = round2 free_space
            in Inr (total_area, usable_area, free_space))))))"

section \<open>The shelf layout\<close>

text \<open>
  The loop of \<open>_simple_shelf_layout\<close> with its four variables \<open>x\<close>, \<open>y\<close>, \<open>row_h\<close> and
  \<open>placed\<close> passed along. \<open>w > max_width or h > max_length\<close> compares \<open>w\<close> first and
  \<open>h\<close> only when \<open>w\<close> fits.
\<close>

type_synonym placed = "rat \<times> rat \<times> pyval"

fun shelf_loop ::
  "rat \<Rightarrow> rat \<Rightarrow> rat \<Rightarrow> rat \<Rightarrow> rat \<Rightarrow> rat \<Rightarrow> rat \<Rightarrow> rat \<Rightarrow> placed list \<Rightarrow> pyval list
     \<Rightarrow> error + placed list" where
  "shelf_loop start_x start_y max_width max_length gap x y row_h placed [] = Inr placed"
| "shelf_loop start_x start_y max_width max_length gap x y row_h placed (it # items) =
     and_then (subscript it ''width'') (\<lambda>wv.
     and_then (subscript it ''length'') (\<lambda>hv.
     and_then (num_of wv) (\<lambda>w.
       if w > max_width
       then shelf_loop start_x start_y max_width max_length gap x y row_h placed items
       else
         and_then (num_of hv) (\<lambda>h.
           if h > max_length
           then shelf_loop start_x start_y max_width max_length gap x y row_h placed items
           else
             let new_row = (x + w + gap > start_x + max_width);
                 x1 = (if new_row then start_x + gap else x);
                 y1 = (if new_row then y + (row_h + gap) else y);
                 row_h1 = (if new_row then 0 else row_h)
             in if y1 + h + gap > start_y + max_length
                then shelf_loop start_x start_y max_width max_length gap x1 y1 row_h1 placed items
                else shelf_loop start_x start_y max_width max_length gap
                       (x1 + (w + gap)) y1 (max row_h1 h) (placed @ [(x1, y1, it)]) items))))"

definition simple_shelf_layout ::
  "pyval list \<Rightarrow> rat \<Rightarrow> rat \<Rightarrow> rat \<Rightarrow> rat \<Rightarrow> rat \<Rightarrow> error + placed list" where
  "simple_shelf_layout items start_x start_y max_width max_length gap =
     shelf_loop start_x start_y max_width max_length gap (start_x + gap) (start_y + gap) 0 [] items"

section \<open>The main function\<close>

record result =
  free_space :: rat
  fitting_objects :: "pyval list"

fun fitting_loop :: "rat \<Rightarrow> pyval list \<Rightarrow> pyval list \<Rightarrow> error + pyval list" where
  "fitting_loop fs fitting_names [] = Inr fitting_names"
| "fitting_loop fs fitting_names (obj # objs) =
     and_then (obj_area obj) (\<lambda>area.
       if area \<le> fs
       then and_then (subscript obj ''name'') (\<lambda>n. fitting_loop fs (fitting_names @ [n]) objs)
       else fitting_loop fs fitting_names objs)"

definition find_fitting_objects ::
  "pyval \<Rightarrow> pyval \<Rightarrow> pyval \<Rightarrow> pyval \<Rightarrow> pyval \<Rightarrow> error + result" where
  "find_fitting_objects plot_width plot_length restricted_border existing_objects new_objects =
     and_then
       (validate_inputs plot_width plot_length restricted_border existing_objects new_objects)
       (\<lambda>_.
     and_then (areas plot_width plot_length restricted_border existing_objects)
       (\<lambda>(_, _, fs).
       if fs \<le> 0 then Inr \<lparr>free_space = 0, fitting_objects = []\<rparr>
       else
         and_then (iterate new_objects) (\<lambda>news.
         and_then (fitting_loop fs [] news) (\<lambda>fitting_names.
           Inr \<lparr>free_space = fs, fitting_objects = fitting_names\<rparr>))))"

section \<open>Notions used in the statements\<close>

text \<open>
  A validated input is described by its typed view: the three numbers of the plot, the
  \<open>(width, length)\<close> pairs of the existing objects and the \<open>(name, width, length)\<close>
  triples of the candidates. The dictionaries themselves stay arbitrary (any further keys,
  any order); lemma \<open>validate_inputs_iff\<close> shows that the inputs with such a view are
  exactly the ones the validator accepts.
\<close>

definition has_dims :: "pyval \<Rightarrow> rat \<Rightarrow> rat \<Rightarrow> bool" where
  "has_dims obj w l =
     (subscript obj ''width'' = Inr (PNum w) \<and> subscript obj ''length'' = Inr (PNum l))"

definition valid_plot :: "rat \<Rightarrow> rat \<Rightarrow> rat \<Rightarrow> bool" where
  "valid_plot w l b = (0 < w \<and> 0 < l \<and> 0 < b \<and> 2 * b < w \<and> 2 * b < l)"

definition valid_rect :: "pyval \<Rightarrow> rat \<times> rat \<Rightarrow> bool" where
  "valid_rect obj d = (case d of (w, l) \<Rightarrow> has_dims obj w l \<and> 0 < w \<and> 0 < l)"

definition valid_cand :: "pyval \<Rightarrow> string \<times> rat \<times> rat \<Rightarrow> bool" where
  "valid_cand obj c =
     (case c of (n, w, l) \<Rightarrow>
        subscript obj ''name'' = Inr (PStr n) \<and> strip n \<noteq> [] \<and>
        has_dims obj w l \<and> 0 < w \<and> 0 < l)"

definition area_of :: "rat \<times> rat \<Rightarrow> rat" where
  "area_of d = (case d of (w, l) \<Rightarrow> w * l)"

definition cand_name :: "string \<times> rat \<times> rat \<Rightarrow> pyval" where
  "cand_name c = (case c of (n, w, l) \<Rightarrow> PStr n)"

definition cand_area :: "string \<times> rat \<times> rat \<Rightarrow> rat" where
  "cand_area c = (case c of (n, w, l) \<Rightarrow> w * l)"

definition raw_free :: "rat \<Rightarrow> rat \<Rightarrow> rat \<Rightarrow> (rat \<times> rat) list \<Rightarrow> rat" where
  "raw_free w l b edims = (w - 2 * b) * (l - 2 * b) - sum_list (map area_of edims)"

text \<open>
  The rectangle that \<open>visualize_plot\<close> draws for a placed item \<open>(x, y, it)\<close>:
  \<open>Rectangle((x, y), it["width"], it["length"])\<close>, as \<open>(x, y, width, length)\<close>. Its
  interior is the open box between the corners \<open>(x, y)\<close> and \<open>(x + width, y + length)\<close>,
  whichever way its sides run; a rectangle is \<open>upright\<close> when neither side is negative.
\<close>

definition footprint :: "placed \<Rightarrow> error + rat \<times> rat \<times> rat \<times> rat" where
  "footprint p =
     (case p of (x, y, it) \<Rightarrow>
        and_then (subscript it ''width'') (\<lambda>wv.
        and_then (num_of wv) (\<lambda>w.
        and_then (subscript it ''length'') (\<lambda>hv.
        and_then (num_of hv) (\<lambda>h. Inr (x, y, w, h))))))"




definition fits :: "rat \<Rightarrow> rat \<Rightarrow> placed \<Rightarrow> bool" where
  "fits max_width max_length p =
     (case footprint p of
        Inl e \<Rightarrow> False
      | Inr (x, y, w, h) \<Rightarrow> w \<le> max_width \<and> h \<le> max_length)"





section \<open>Basic facts about the model\<close>

lemma and_then_simps [simp]:
  "and_then (Inl e) f = Inl e"
  "and_then (Inr v) f = f v"
  by (simp_all add: and_then_def)

lemma and_then_eq_Inr: "and_then m f = Inr r \<longleftrightarrow> (\<exists>v. m = Inr v \<and> f v = Inr r)"
  by (cases m) simp_all

lemma num_of_PNum [simp]: "num_of (PNum q) = Inr q"
  by (simp add: num_of_def)

lemma num_of_eq_Inr: "num_of v = Inr q \<longleftrightarrow> v = PNum q"
  by (cases v) (simp_all add: num_of_def)

lemma iterate_PList [simp]: "iterate (PList xs) = Inr xs"
  by (simp add: iterate_def)

lemma validate_positive_number_eq_Inr:
  "validate_positive_number v = Inr () \<longleftrightarrow> (\<exists>q. v = PNum q \<and> 0 < q)"
  by (cases v) (auto simp: validate_positive_number_def)

lemma validate_positive_number_no_KeyError: "validate_positive_number v \<noteq> Inl KeyError"
  by (cases v) (simp_all add: validate_positive_number_def)

lemma obj_area_dims: "has_dims obj w l \<Longrightarrow> obj_area obj = Inr (w * l)"
  by (simp add: has_dims_def obj_area_def)

lemma footprint_dims: "has_dims it w h \<Longrightarrow> footprint (x, y, it) = Inr (x, y, w, h)"
  by (simp add: footprint_def has_dims_def)



section \<open>What the validator accepts\<close>

lemma validate_rect_iff:
  "validate_object_dict obj [''width'', ''length''] = Inr () \<longleftrightarrow> (\<exists>d. valid_rect obj d)"
  by (cases obj)
     (auto simp: validate_object_dict_def valid_rect_def has_dims_def subscript_def
                 and_then_eq_Inr validate_positive_number_eq_Inr split: option.splits)

lemma validate_cand_iff:
  "validate_object_dict obj [''name'', ''width'', ''length''] = Inr () \<longleftrightarrow>
     (\<exists>c. valid_cand obj c)"
  by (cases obj)
     (auto simp: validate_object_dict_def valid_cand_def has_dims_def subscript_def
                 and_then_eq_Inr validate_positive_number_eq_Inr
           split: option.splits pyval.splits)

lemma validate_all_rects_iff:
  "validate_all objs [''width'', ''length''] = Inr () \<longleftrightarrow> (\<exists>ds. list_all2 valid_rect objs ds)"
proof (induction objs)
  case Nil
  show ?case by simp
next
  case (Cons obj objs)
  show ?case
    by (auto simp: and_then_eq_Inr validate_rect_iff Cons.IH list_all2_Cons1)
qed

lemma validate_all_cands_iff:
  "validate_all objs [''name'', ''width'', ''length''] = Inr () \<longleftrightarrow>
     (\<exists>cs. list_all2 valid_cand objs cs)"
proof (induction objs)
  case Nil
  show ?case by simp
next
  case (Cons obj objs)
  show ?case
    by (auto simp: and_then_eq_Inr validate_cand_iff Cons.IH list_all2_Cons1)
qed

lemma validate_inputs_iff:
  "validate_inputs pw pl rb ex new = Inr () \<longleftrightarrow>
     (\<exists>w l b exs edims news cands.
        pw = PNum w \<and> pl = PNum l \<and> rb = PNum b \<and> valid_plot w l b \<and>
        ex = PList exs \<and> list_all2 valid_rect exs edims \<and>
        new = PList news \<and> list_all2 valid_cand news cands)"
  (is "?lhs \<longleftrightarrow> ?rhs")
proof
  assume v: ?lhs
  then obtain w l b where n: "pw = PNum w" "pl = PNum l" "rb = PNum b" "0 < w" "0 < l" "0 < b"
    by (auto simp: validate_inputs_def and_then_eq_Inr validate_positive_number_eq_Inr)
  with v have r: "\<not> (b * 2 \<ge> w \<or> b * 2 \<ge> l)"
    and "(case ex of
            PList exs \<Rightarrow>
              (case new of
                 PList news \<Rightarrow>
                   and_then (validate_all exs [''width'', ''length'']) (\<lambda>_.
                   validate_all news [''name'', ''width'', ''length''])
               | _ \<Rightarrow> Inl TypeError)
          | _ \<Rightarrow> Inl TypeError) = Inr ()"
    by (auto simp: validate_inputs_def validate_positive_number_def split: if_splits)
  then obtain exs news where "ex = PList exs" "new = PList news"
    "validate_all exs [''width'', ''length''] = Inr ()"
    "validate_all news [''name'', ''width'', ''length''] = Inr ()"
    by (cases ex; cases new) (auto simp: and_then_eq_Inr)
  with n r show ?rhs
    by (auto simp: validate_all_rects_iff validate_all_cands_iff valid_plot_def mult.commute)
next
  assume ?rhs
  then obtain w l b exs edims news cands where
    "pw = PNum w" "pl = PNum l" "rb = PNum b" "valid_plot w l b"
    "ex = PList exs" "list_all2 valid_rect exs edims"
    "new = PList news" "list_all2 valid_cand news cands"
    by blast
  moreover from this have "validate_all exs [''width'', ''length''] = Inr ()"
    "validate_all news [''name'', ''width'', ''length''] = Inr ()"
    by (auto simp: validate_all_rects_iff validate_all_cands_iff)
  ultimately show ?lhs
    by (simp add: validate_inputs_def validate_positive_number_def valid_plot_def mult.commute)
qed

text \<open>The validator raises only the two classified errors.\<close>

lemma validate_object_dict_no_KeyError:
  assumes "''width'' \<in> set required_keys" "''length'' \<in> set required_keys"
  shows "validate_object_dict obj required_keys \<noteq> Inl KeyError"
proof (cases obj)
  case (PDict d)
  show ?thesis
  proof (cases "list_all (\<lambda>k. map_of d k \<noteq> None) required_keys")
    case False
    with PDict show ?thesis by (simp add: validate_object_dict_def)
  next
    case True
    with assms obtain wv lv where "map_of d ''width'' = Some wv" "map_of d ''length'' = Some lv"
      unfolding list_all_iff by blast
    then have d: "validate_dims obj [''width'', ''length''] \<noteq> Inl KeyError"
      using validate_positive_number_no_KeyError [of wv]
        validate_positive_number_no_KeyError [of lv]
      by (cases "validate_positive_number wv"; cases "validate_positive_number lv")
         (auto simp: PDict subscript_def)
    show ?thesis
    proof (cases "''name'' \<in> set required_keys")
      case False
      with True d show ?thesis by (simp add: PDict validate_object_dict_def)
    next
      case n: True
      with True obtain nv where "map_of d ''name'' = Some nv"
        unfolding list_all_iff by blast
      with True n d show ?thesis
        by (cases nv) (auto simp: PDict validate_object_dict_def subscript_def)
    qed
  qed
qed (simp_all add: validate_object_dict_def)

lemma and_then_no_KeyError:
  "m \<noteq> Inl KeyError \<Longrightarrow> (\<And>v. f v \<noteq> Inl KeyError) \<Longrightarrow> and_then m f \<noteq> Inl KeyError"
  by (cases m) auto

lemma num_of_no_KeyError: "num_of v \<noteq> Inl KeyError"
  by (cases v) (simp_all add: num_of_def)

lemma validate_all_no_KeyError:
  assumes "''width'' \<in> set required_keys" "''length'' \<in> set required_keys"
  shows "validate_all objs required_keys \<noteq> Inl KeyError"
proof (induction objs)
  case Nil
  show ?case by simp
next
  case (Cons obj objs)
  with validate_object_dict_no_KeyError [OF assms, of obj] show ?case
    by (simp add: and_then_no_KeyError)
qed

lemma validate_inputs_no_KeyError: "validate_inputs pw pl rb ex new \<noteq> Inl KeyError"
proof -
  have lists: "(case ex of
            PList exs \<Rightarrow>
              (case new of
                 PList news \<Rightarrow>
                   and_then (validate_all exs [''width'', ''length'']) (\<lambda>_.
                   validate_all news [''name'', ''width'', ''length''])
               | _ \<Rightarrow> Inl TypeError)
          | _ \<Rightarrow> Inl TypeError) \<noteq> Inl KeyError"
    by (cases ex; cases new) (simp_all add: and_then_no_KeyError validate_all_no_KeyError)
  show ?thesis
    unfolding validate_inputs_def
    by (intro and_then_no_KeyError validate_positive_number_no_KeyError num_of_no_KeyError)
       (simp add: lists)
qed

section \<open>Free space and admission on validated input\<close>

lemma sum_areas_dims:
  "list_all2 valid_rect objs ds \<Longrightarrow> sum_areas acc objs = Inr (acc + sum_list (map area_of ds))"
proof (induction objs ds arbitrary: acc rule: list_all2_induct)
  case Nil
  show ?case by simp
next
  case (Cons obj objs d ds)
  from Cons.hyps(1) have "obj_area obj = Inr (area_of d)"
    by (cases d) (simp add: valid_rect_def area_of_def obj_area_dims)
  then show ?case
    by (simp add: Cons.IH add.assoc)
qed

lemma fitting_loop_cands:
  "list_all2 valid_cand objs cs \<Longrightarrow>
   fitting_loop fs names objs =
     Inr (names @ map cand_name (filter (\<lambda>c. cand_area c \<le> fs) cs))"
proof (induction objs cs arbitrary: names rule: list_all2_induct)
  case Nil
  show ?case by simp
next
  case (Cons obj objs c cs)
  from Cons.hyps(1)
  have "obj_area obj = Inr (cand_area c)" "subscript obj ''name'' = Inr (cand_name c)"
    by (cases c; simp add: valid_cand_def cand_area_def cand_name_def obj_area_dims)+
  then show ?case
    by (simp add: Cons.IH)
qed



lemma areas_valid:
  "list_all2 valid_rect exs edims \<Longrightarrow>
   areas (PNum w) (PNum l) (PNum b) (PList exs) =
     Inr (w * l, (w - 2 * b) * (l - 2 * b), round2 (max 0 (raw_free w l b edims)))"
  by (simp add: areas_def Let_def sum_areas_dims raw_free_def)

lemma find_fitting_objects_valid:
  assumes "valid_plot w l b" "list_all2 valid_rect exs edims" "list_all2 valid_cand news cands"
  shows "find_fitting_objects (PNum w) (PNum l) (PNum b) (PList exs) (PList news) =
     Inr (let fs = round2 (max 0 (raw_free w l b edims))
          in if fs \<le> 0 then \<lparr>free_space = 0, fitting_objects = []\<rparr>
             else \<lparr>free_space = fs,
                   fitting_objects = map cand_name (filter (\<lambda>c. cand_area c \<le> fs) cands)\<rparr>)"
proof -
  from assms have "validate_inputs (PNum w) (PNum l) (PNum b) (PList exs) (PList news) = Inr ()"
    unfolding validate_inputs_iff by blast
  then show ?thesis
    by (simp add: find_fitting_objects_def areas_valid [OF assms(2)]
                  fitting_loop_cands [OF assms(3)] Let_def)
qed

text \<open>
  After a successful validation the function returns a result: none of the TypeError and
  KeyError branches of the arithmetic is reached.
\<close>

lemma validated_runs:
  assumes "validate_inputs pw pl rb ex new = Inr ()"
  shows "\<exists>r. find_fitting_objects pw pl rb ex new = Inr r"
proof -
  from assms obtain w l b exs edims news cands where
    "pw = PNum w" "pl = PNum l" "rb = PNum b" "valid_plot w l b"
    "ex = PList exs" "list_all2 valid_rect exs edims"
    "new = PList news" "list_all2 valid_cand news cands"
    unfolding validate_inputs_iff by blast
  then show ?thesis
    by (simp add: find_fitting_objects_valid)
qed








section \<open>The claims about \<open>find_fitting_objects\<close>\<close>





text \<open>
  C3. For all positive numbers \<open>w\<close>, \<open>l\<close> and \<open>b\<close> with \<open>2b \<ge> w\<close> or \<open>2b \<ge> l\<close>, the validator
  raises ValueError (the specification's InvalidValue) and so does \<open>find_fitting_objects\<close>,
  whatever the two object arguments are: neither is looked at, and no area is computed.
\<close>

theorem border_too_large_raises:
  assumes "0 < w" "0 < l" "0 < b" "2 * b \<ge> w \<or> 2 * b \<ge> l"
  shows "validate_inputs (PNum w) (PNum l) (PNum b) ex new = Inl ValueError \<and>
         find_fitting_objects (PNum w) (PNum l) (PNum b) ex new = Inl ValueError"
  using assms
  by (auto simp: find_fitting_objects_def validate_inputs_def validate_positive_number_def
                 mult.commute)

theorem border_too_large_raises_witness:
  "(0::rat) < 50 \<and> (0::rat) < 100 \<and> (0::rat) < 25 \<and>
   ((2::rat) * 25 \<ge> 50 \<or> (2::rat) * 25 \<ge> 100) \<and>
   validate_inputs (PNum 50) (PNum 100) (PNum 25) (PList []) PNone = Inl ValueError \<and>
   find_fitting_objects (PNum 50) (PNum 100) (PNum 25) (PList []) PNone = Inl ValueError"
  using border_too_large_raises [of 50 100 25 "PList []" PNone] by simp





text \<open>
  C8. Whenever the validator raises, \<open>find_fitting_objects\<close> raises the same error, which is
  TypeError or ValueError (the specification's InvalidType and InvalidValue), and returns
  no result: the area computation and the admission loop come after the validation.
\<close>

theorem validation_failure_propagates:
  assumes "validate_inputs pw pl rb ex new = Inl e"
  shows "find_fitting_objects pw pl rb ex new = Inl e \<and> (e = TypeError \<or> e = ValueError)"
proof -
  from assms validate_inputs_no_KeyError [of pw pl rb ex new] have "e \<noteq> KeyError"
    by auto
  then have "e = TypeError \<or> e = ValueError"
    by (cases e) simp_all
  with assms show ?thesis
    by (simp add: find_fitting_objects_def)
qed

theorem validation_failure_propagates_witness:
  "validate_inputs (PNum 50) (PNum 100) (PNum 4) (PList [])
     (PList [PDict [(''name'', PStr ''Shed''), (''width'', PNum 0), (''length'', PNum 10)]])
     = Inl ValueError \<and>
   find_fitting_objects (PNum 50) (PNum 100) (PNum 4) (PList [])
     (PList [PDict [(''name'', PStr ''Shed''), (''width'', PNum 0), (''length'', PNum 10)]])
     = Inl ValueError"
proof -
  have v: "validate_inputs (PNum 50) (PNum 100) (PNum 4) (PList [])
     (PList [PDict [(''name'', PStr ''Shed''), (''width'', PNum 0), (''length'', PNum 10)]])
     = Inl ValueError"
    by code_simp
  from validation_failure_propagates [OF v] v show ?thesis
    by simp
qed

section \<open>One turn of the shelf loop\<close>

lemma shelf_loop_Cons_wide:
  "subscript it ''width'' = Inr (PNum w) \<Longrightarrow> subscript it ''length'' = Inr hv \<Longrightarrow> mw < w \<Longrightarrow>
   shelf_loop sx sy mw ml gap x y row_h placed (it # items) =
   shelf_loop sx sy mw ml gap x y row_h placed items"
  by simp

lemma shelf_loop_Cons_dims:
  "has_dims it w h \<Longrightarrow>
   shelf_loop sx sy mw ml gap x y row_h placed (it # items) =
     (if mw < w \<or> ml < h then shelf_loop sx sy mw ml gap x y row_h placed items
      else if sx + mw < x + w + gap
      then (if sy + ml < y + (row_h + gap) + h + gap
            then shelf_loop sx sy mw ml gap (sx + gap) (y + (row_h + gap)) 0 placed items
            else shelf_loop sx sy mw ml gap (sx + gap + (w + gap)) (y + (row_h + gap)) (max 0 h)
                   (placed @ [(sx + gap, y + (row_h + gap), it)]) items)
      else (if sy + ml < y + h + gap
            then shelf_loop sx sy mw ml gap x y row_h placed items
            else shelf_loop sx sy mw ml gap (x + (w + gap)) y (max row_h h)
                   (placed @ [(x, y, it)]) items))"
  by (simp add: has_dims_def Let_def)

text \<open>
  A turn that does not raise has read a numeric width, and either skipped the item for its
  width alone or read a numeric length as well.
\<close>

lemma shelf_loop_Cons_Inr:
  assumes "shelf_loop sx sy mw ml gap x y row_h placed (it # items) = Inr out"
  shows "(\<exists>w hv. subscript it ''width'' = Inr (PNum w) \<and> subscript it ''length'' = Inr hv \<and>
                 mw < w) \<or>
         (\<exists>w h. has_dims it w h)"
proof -
  from assms obtain wv hv w where
    a: "subscript it ''width'' = Inr wv" "subscript it ''length'' = Inr hv" "num_of wv = Inr w"
    by (auto simp: and_then_eq_Inr)
  then have wv: "wv = PNum w"
    by (simp add: num_of_eq_Inr)
  show ?thesis
  proof (cases "mw < w")
    case True
    with a wv show ?thesis by blast
  next
    case False
    with assms a obtain h where "num_of hv = Inr h"
      by (auto simp: and_then_eq_Inr)
    then have "hv = PNum h"
      by (simp add: num_of_eq_Inr)
    with a wv show ?thesis
      by (auto simp: has_dims_def)
  qed
qed

section \<open>Placed items fit the container\<close>

lemma fits_dims: "has_dims it w h \<Longrightarrow> w \<le> mw \<Longrightarrow> h \<le> ml \<Longrightarrow> fits mw ml (x, y, it)"
  by (simp add: fits_def footprint_dims)

lemma shelf_loop_fits:
  assumes "shelf_loop sx sy mw ml gap x y row_h placed items = Inr out"
    and "list_all (fits mw ml) placed"
  shows "list_all (fits mw ml) out"
  using assms
proof (induction items arbitrary: x y row_h placed)
  case Nil
  then show ?case by simp
next
  case (Cons it items)
  from shelf_loop_Cons_Inr [OF Cons.prems(1)] show ?case
  proof (elim disjE exE conjE)
    fix w hv
    assume "subscript it ''width'' = Inr (PNum w)" "subscript it ''length'' = Inr hv" "mw < w"
    with Cons.prems(1) have "shelf_loop sx sy mw ml gap x y row_h placed items = Inr out"
      by (simp add: shelf_loop_Cons_wide)
    from this Cons.prems(2) show ?thesis
      by (rule Cons.IH)
  next
    fix w h
    assume d: "has_dims it w h"
    from Cons.prems obtain x' y' r' pl where
      "shelf_loop sx sy mw ml gap x' y' r' pl items = Inr out" "list_all (fits mw ml) pl"
      unfolding shelf_loop_Cons_dims [OF d]
      by (auto split: if_splits simp: fits_dims [OF d])
    then show ?thesis
      by (rule Cons.IH)
  qed
qed

section \<open>Items with numeric dimensions never make the loop raise\<close>


section \<open>Placed rectangles do not overlap\<close>







section \<open>The claims about the shelf layout\<close>




text \<open>
  C5. Every item of a placement sequence that the shelf layout returns has a width of at
  most \<open>max_width\<close> and a length of at most \<open>max_length\<close>, for every item list, container
  and gap.
\<close>

theorem placed_items_fit_container:
  assumes "simple_shelf_layout items start_x start_y max_width max_length gap = Inr placed"
  shows "list_all (fits max_width max_length) placed"
proof -
  from assms have "shelf_loop start_x start_y max_width max_length gap
      (start_x + gap) (start_y + gap) 0 [] items = Inr placed"
    by (simp add: simple_shelf_layout_def)
  then show ?thesis
    by (rule shelf_loop_fits) simp
qed

theorem placed_items_fit_container_witness:
  "simple_shelf_layout
     [PDict [(''width'', PNum 6), (''length'', PNum 1)],
      PDict [(''width'', PNum 11), (''length'', PNum 1)],
      PDict [(''width'', PNum 1), (''length'', PNum 11)],
      PDict [(''width'', PNum 10), (''length'', PNum 10)],
      PDict [(''width'', PNum 2), (''length'', PNum 3)]] 0 0 10 10 (1 / 2)
     = Inr [(1 / 2, 1 / 2, PDict [(''width'', PNum 6), (''length'', PNum 1)]),
            (1 / 2, 2, PDict [(''width'', PNum 2), (''length'', PNum 3)])] \<and>
   list_all (fits 10 10)
     [(1 / 2, 1 / 2, PDict [(''width'', PNum 6), (''length'', PNum 1)]),
      (1 / 2, 2, PDict [(''width'', PNum 2), (''length'', PNum 3)])]"
proof -
  have l: "simple_shelf_layout
     [PDict [(''width'', PNum 6), (''length'', PNum 1)],
      PDict [(''width'', PNum 11), (''length'', PNum 1)],
      PDict [(''width'', PNum 1), (''length'', PNum 11)],
      PDict [(''width'', PNum 10), (''length'', PNum 10)],
      PDict [(''width'', PNum 2), (''length'', PNum 3)]] 0 0 10 10 (1 / 2)
     = Inr [(1 / 2, 1 / 2, PDict [(''width'', PNum 6), (''length'', PNum 1)]),
            (1 / 2, 2, PDict [(''width'', PNum 2), (''length'', PNum 3)])]"
    by code_simp
  from placed_items_fit_container [OF l] l show ?thesis
    by simp
qed




text \<open>
  C10. An item that is no wider than the container can be placed across the container's
  right edge. In a container of width 10 with gap 1/2, an item of width 9.8 does not pass
  the right-edge test at the start of the first row; the cursor moves to the start of the
  next row, where the test is not made again, and the item is placed at \<open>x = 1/2\<close>, so that
  it ends at 10.3.
\<close>

theorem row_reset_protrudes:
  "simple_shelf_layout [PDict [(''width'', PNum (49 / 5)), (''length'', PNum 1)]]
     0 0 10 10 (1 / 2)
     = Inr [(1 / 2, 1, PDict [(''width'', PNum (49 / 5)), (''length'', PNum 1)])] \<and>
   footprint (1 / 2, 1, PDict [(''width'', PNum (49 / 5)), (''length'', PNum 1)])
     = Inr (1 / 2, 1, 49 / 5, 1) \<and>
   (49 / 5 :: rat) \<le> 10 \<and> (10 :: rat) < 49 / 5 + 2 * (1 / 2) \<and>
   (0 :: rat) + 10 < 1 / 2 + 49 / 5"
proof -
  have "simple_shelf_layout [PDict [(''width'', PNum (49 / 5)), (''length'', PNum 1)]]
     0 0 10 10 (1 / 2)
     = Inr [(1 / 2, 1, PDict [(''width'', PNum (49 / 5)), (''length'', PNum 1)])]"
    by code_simp
  moreover have "footprint (1 / 2, 1, PDict [(''width'', PNum (49 / 5)), (''length'', PNum 1)])
     = Inr (1 / 2, 1, 49 / 5, 1)"
    by (simp add: footprint_def subscript_def)
  ultimately show ?thesis
    by simp
qed

end
